theory Spec2Isabelle
  imports Complex_Main "HOL-Library.AList" "HOL-Library.Sublist" "HOL-Library.Log_Nat"
begin

section \<open>Values decoded from JSON\<close>

text \<open>
  The values \<^verbatim>\<open>json.loads\<close> produces. Python's \<^verbatim>\<open>None\<close> is \<open>JNull\<close>. Integers and
  floats are one constructor: the source only hashes them as dictionary keys (where
  \<^verbatim>\<open>1 == 1.0\<close>) and hands them to \<^verbatim>\<open>datetime.fromtimestamp\<close>. The non-standard
  \<^verbatim>\<open>NaN\<close> and \<^verbatim>\<open>Infinity\<close> are not represented. An object is the list of its items,
  read with \<open>map_of\<close>.
\<close>

datatype json =
    JNull
  | JBool bool
  | JNum rat
  | JStr string
  | JArr "json list"
  | JObj "(string \<times> json) list"

type_synonym dict = "(string \<times> json) list"

definition keys :: "dict \<Rightarrow> string list" where
  "keys d = map fst d"

section \<open>Exceptions\<close>

text \<open>
  Exceptions of the Python runtime and library that the modelled code can meet. All of them
  are subclasses of \<^verbatim>\<open>Exception\<close>; only \<open>ValueError\<close> is caught by name.
\<close>

datatype py_error = TypeError | ValueError | OverflowError | OSError | RecursionError

text \<open>
  A message is a literal of the source or \<^verbatim>\<open>str(err)\<close> of a library exception, whose
  text belongs to the library.
\<close>

datatype msg = Lit string | StrOf py_error

text \<open>
  Modelled from the spec: \<^verbatim>\<open>exceptions.py\<close>, which declares \<^verbatim>\<open>BadSegmentException\<close> and
  \<^verbatim>\<open>AWSError\<close>, is not among the sources. A rejection holds an optional segment id, a code
  and a message; the fields are the keyword arguments of the raise sites in \<^verbatim>\<open>models.py\<close>,
  and \<^verbatim>\<open>seg_id\<close> defaults to \<^verbatim>\<open>None\<close>, which is \<open>JNull\<close>. A document without its
  mandatory fields is rejected with the code \<^verbatim>\<open>MissingParam\<close>, so a
  \<^verbatim>\<open>BadSegmentException\<close> passes the handlers of \<^verbatim>\<open>ValueError\<close>: it is not one.
\<close>

datatype exn =
    BadSegmentException (seg_id: json) (code: string) (message: msg)
  | PyError py_error

datatype aws_error = AWSError (aws_message: string) (aws_code: string) (status: int)

section \<open>TraceSegment\<close>

text \<open>
  The attributes \<^verbatim>\<open>TraceSegment.__init__\<close> sets from its arguments; \<^verbatim>\<open>self.id\<close> is the
  field \<open>segment_id\<close>. The private caches (\<^verbatim>\<open>_start_date\<close>, \<^verbatim>\<open>_end_date\<close>, ...) only
  memoise values that are functions of the other fields and are left out.
\<close>

record segment =
  name :: json
  segment_id :: json
  trace_id :: json
  start_time :: json
  end_time :: json
  in_progress :: json
  service :: json
  user :: json
  origin :: json
  parent_id :: json
  http :: json
  aws :: json
  metadata :: json
  annotations :: json
  subsegments :: json
  misc :: dict

definition named_args :: "string list" where
  "named_args = [''name'', ''segment_id'', ''trace_id'', ''start_time'', ''end_time'',
     ''in_progress'', ''service'', ''user'', ''origin'', ''parent_id'', ''http'', ''aws'',
     ''metadata'', ''annotations'', ''subsegments'']"

definition kwarg :: "dict \<Rightarrow> string \<Rightarrow> json \<Rightarrow> json" where
  "kwarg d k dflt = (case map_of d k of None \<Rightarrow> dflt | Some v \<Rightarrow> v)"

text \<open>
  \<^verbatim>\<open>cls(**data)\<close>: the call binds the named parameters by key and collects every other key
  in \<^verbatim>\<open>**kwargs\<close>. A key \<^verbatim>\<open>self\<close> collides with the first parameter of \<^verbatim>\<open>__init__\<close>
  and a missing required parameter has no default; both are a \<^verbatim>\<open>TypeError\<close>.
\<close>

definition init_segment :: "dict \<Rightarrow> exn + segment" where
  "init_segment data =
     (if ''self'' \<in> set (keys data) then Inl (PyError TypeError)
      else case (map_of data ''name'', map_of data ''segment_id'',
                 map_of data ''trace_id'', map_of data ''start_time'') of
        (Some n, Some i, Some t, Some st) \<Rightarrow>
          Inr \<lparr> name = n, segment_id = i, trace_id = t, start_time = st,
                end_time = kwarg data ''end_time'' JNull,
                in_progress = kwarg data ''in_progress'' (JBool False),
                service = kwarg data ''service'' JNull,
                user = kwarg data ''user'' JNull,
                origin = kwarg data ''origin'' JNull,
                parent_id = kwarg data ''parent_id'' JNull,
                http = kwarg data ''http'' JNull,
                aws = kwarg data ''aws'' JNull,
                metadata = kwarg data ''metadata'' JNull,
                annotations = kwarg data ''annotations'' JNull,
                subsegments = kwarg data ''subsegments'' JNull,
                misc = filter (\<lambda>(k, v). k \<notin> set named_args) data \<rparr>
      | _ \<Rightarrow> Inl (PyError TypeError))"

text \<open>
  \<^verbatim>\<open>TraceSegment.from_dict\<close>. On an object it runs the checks in the order of the source.
  \<^verbatim>\<open>process_segment\<close> passes whatever \<^verbatim>\<open>json.loads\<close> returned, so the other shapes are
  modelled too: \<^verbatim>\<open>'id' in data\<close> is a substring test on a string and a membership test on
  an array, after which \<^verbatim>\<open>data['id']\<close> is a \<^verbatim>\<open>TypeError\<close>; on a number, a boolean or
  \<^verbatim>\<open>None\<close> the test itself is a \<^verbatim>\<open>TypeError\<close>.
\<close>

definition from_dict_obj :: "dict \<Rightarrow> exn + segment" where
  "from_dict_obj data0 =
     (case map_of data0 ''id'' of
        None \<Rightarrow> Inl (BadSegmentException JNull ''MissingParam'' (Lit ''Missing segment ID''))
      | Some sid \<Rightarrow>
          let data = AList.update ''segment_id'' sid data0 in
          if \<not> list_all (\<lambda>arg. arg \<in> set (keys data)) [''name'', ''trace_id'', ''start_time'']
          then Inl (BadSegmentException sid ''MissingParam'' (Lit ''Missing segment ID''))
          else if ''end_time'' \<notin> set (keys data) \<and> ''in_progress'' \<notin> set (keys data)
          then Inl (BadSegmentException sid ''MissingParam''
                      (Lit ''Missing end_time or in_progress''))
          else if ''end_time'' \<notin> set (keys data)
                  \<and> map_of data ''in_progress'' = Some (JStr ''false'')
          then Inl (BadSegmentException sid ''MissingParam'' (Lit ''Missing end_time''))
          else init_segment data)"

fun from_dict :: "json \<Rightarrow> exn + segment" where
  "from_dict (JObj data) = from_dict_obj data"
| "from_dict (JStr s) =
     (if \<not> sublist ''id'' s
      then Inl (BadSegmentException JNull ''MissingParam'' (Lit ''Missing segment ID''))
      else Inl (PyError TypeError))"
| "from_dict (JArr xs) =
     (if JStr ''id'' \<notin> set xs
      then Inl (BadSegmentException JNull ''MissingParam'' (Lit ''Missing segment ID''))
      else Inl (PyError TypeError))"
| "from_dict _ = Inl (PyError TypeError)"

section \<open>Dates\<close>

text \<open>
  A naive \<^verbatim>\<open>datetime\<close> is the number of microseconds since 1970-01-01 00:00:00 of its
  own calendar, so that comparison is comparison of integers and the difference of two of
  them is the \<^verbatim>\<open>timedelta\<close> in microseconds.

  \<^verbatim>\<open>datetime.datetime.fromtimestamp\<close> belongs to the standard library. It is the
  parameter \<open>F\<close> of everything below: a function from the stored value to a date or an
  exception (a string or \<^verbatim>\<open>None\<close> is a \<^verbatim>\<open>TypeError\<close>, a number outside the platform's
  range an \<^verbatim>\<open>OverflowError\<close>, \<^verbatim>\<open>OSError\<close> or \<^verbatim>\<open>ValueError\<close>).
\<close>

type_synonym datetime = int

type_synonym fromtimestamp = "json \<Rightarrow> py_error + datetime"

text \<open>The properties \<^verbatim>\<open>start_date\<close> and \<^verbatim>\<open>end_date\<close> of a segment.\<close>

definition seg_start_date :: "fromtimestamp \<Rightarrow> segment \<Rightarrow> py_error + datetime" where
  "seg_start_date F seg = F (start_time seg)"

definition seg_end_date :: "fromtimestamp \<Rightarrow> segment \<Rightarrow> py_error + datetime" where
  "seg_end_date F seg = F (end_time seg)"

text \<open>
  \<^verbatim>\<open>TraceSegment.__lt__\<close>: \<^verbatim>\<open>self.start_date < other.start_date\<close>, the left operand
  evaluated first.
\<close>

definition lt :: "fromtimestamp \<Rightarrow> segment \<Rightarrow> segment \<Rightarrow> py_error + bool" where
  "lt F self other =
     (case seg_start_date F self of
        Inl e \<Rightarrow> Inl e
      | Inr a \<Rightarrow> (case seg_start_date F other of
                    Inl e \<Rightarrow> Inl e
                  | Inr b \<Rightarrow> Inr (a < b)))"

section \<open>Sorted insertion\<close>

text \<open>
  \<^verbatim>\<open>bisect.bisect_left(a, x, lo, hi)\<close>: the binary search of the standard library, which
  compares with \<^verbatim>\<open>a[mid] < x\<close> only. An exception of the comparison leaves the search.
  \<^verbatim>\<open>insort_left\<close> calls it with \<open>lo = 0\<close> and \<open>hi = len(a)\<close>, so \<open>mid\<close> is an index
  of the list.
\<close>

function bisect_left ::
  "fromtimestamp \<Rightarrow> segment list \<Rightarrow> segment \<Rightarrow> nat \<Rightarrow> nat \<Rightarrow> py_error + nat" where
  "bisect_left F a x lo hi =
     (if lo < hi then
        let mid = (lo + hi) div 2 in
        case lt F (a ! mid) x of
          Inl e \<Rightarrow> Inl e
        | Inr True \<Rightarrow> bisect_left F a x (mid + 1) hi
        | Inr False \<Rightarrow> bisect_left F a x lo mid
      else Inr lo)"
  by pat_completeness auto
termination
  by (relation "measure (\<lambda>(F, a, x, lo, hi). hi - lo)") auto

declare bisect_left.simps [simp del]

text \<open>\<^verbatim>\<open>bisect.insort_left(a, x)\<close>: \<^verbatim>\<open>a.insert(bisect_left(a, x, 0, len(a)), x)\<close>.\<close>

definition insort_left :: "fromtimestamp \<Rightarrow> segment list \<Rightarrow> segment \<Rightarrow> py_error + segment list" where
  "insort_left F a x =
     (case bisect_left F a x 0 (length a) of
        Inl e \<Rightarrow> Inl e
      | Inr i \<Rightarrow> Inr (take i a @ x # drop i a))"

section \<open>SegmentCollection\<close>

text \<open>
  Keys of the dictionary \<^verbatim>\<open>_segments\<close>. Python hashes \<^verbatim>\<open>True\<close>, \<^verbatim>\<open>1\<close> and \<^verbatim>\<open>1.0\<close> to
  the same key; a list or a dictionary is unhashable.
\<close>

datatype key = KNone | KNum rat | KStr string

fun dict_key :: "json \<Rightarrow> py_error + key" where
  "dict_key JNull = Inr KNone"
| "dict_key (JBool b) = Inr (KNum (if b then 1 else 0))"
| "dict_key (JNum r) = Inr (KNum r)"
| "dict_key (JStr s) = Inr (KStr s)"
| "dict_key (JArr xs) = Inl TypeError"
| "dict_key (JObj d) = Inl TypeError"

record trace_item =
  start_date :: datetime
  end_date :: datetime
  finished :: bool
  segments :: "segment list"

definition new_trace_item :: trace_item where
  "new_trace_item = \<lparr> start_date = 0, end_date = 0, finished = False, segments = [] \<rparr>"

text \<open>
  The dictionary keeps its items in insertion order, which is the order \<^verbatim>\<open>summary\<close> walks
  them in.
\<close>

type_synonym store = "(key \<times> trace_item) list"

text \<open>\<^verbatim>\<open>self._segments[k]\<close> on the \<^verbatim>\<open>defaultdict\<close>: a missing key is created.\<close>

definition getitem :: "store \<Rightarrow> key \<Rightarrow> trace_item \<times> store" where
  "getitem s k =
     (case map_of s k of
        Some tr \<Rightarrow> (tr, s)
      | None \<Rightarrow> (new_trace_item, s @ [(k, new_trace_item)]))"

text \<open>
  \<^verbatim>\<open>SegmentCollection.put_segment\<close>. The Python object is updated in place, so an
  exception leaves behind what was written before it: the result is the exception, if any,
  and the collection as it then is. Lines 125 and 126 evaluate both dates before lines 127
  and 128 assign them. After a successful \<^verbatim>\<open>insort_left\<close> the list has an element, so
  \<^verbatim>\<open>[0]\<close> and \<^verbatim>\<open>[-1]\<close> are \<open>hd\<close> and \<open>last\<close>.
\<close>

definition put_segment :: "fromtimestamp \<Rightarrow> store \<Rightarrow> segment \<Rightarrow> py_error option \<times> store" where
  "put_segment F s segment =
     (case dict_key (trace_id segment) of
        Inl e \<Rightarrow> (Some e, s)
      | Inr k \<Rightarrow>
          (let (tr, s1) = getitem s k in
           (case insort_left F (segments tr) segment of
              Inl e \<Rightarrow> (Some e, s1)
            | Inr segs \<Rightarrow>
                (let tr1 = tr\<lparr>segments := segs\<rparr>;
                     s2 = AList.update k tr1 s1
                 in
                 if end_time (last segs) \<noteq> JNull then
                   (let tr2 = tr1\<lparr>finished := True\<rparr>;
                        s3 = AList.update k tr2 s2
                    in
                    (case seg_start_date F (hd segs) of
                       Inl e \<Rightarrow> (Some e, s3)
                     | Inr start_time' \<Rightarrow>
                         (case seg_end_date F (last segs) of
                            Inl e \<Rightarrow> (Some e, s3)
                          | Inr end_time' \<Rightarrow>
                              (None, AList.update k
                                 (tr2\<lparr>start_date := start_time', end_date := end_time'\<rparr>)
                                 s3))))
                 else (None, s2)))))"

text \<open>The collection after a sequence of calls of \<^verbatim>\<open>put_segment\<close> on a new one.\<close>

definition puts :: "fromtimestamp \<Rightarrow> segment list \<Rightarrow> store" where
  "puts F history = foldl (\<lambda>s x. snd (put_segment F s x)) [] history"

text \<open>Reading a trace without creating it.\<close>

definition trace_at :: "store \<Rightarrow> key \<Rightarrow> trace_item" where
  "trace_at s k = (case map_of s k of None \<Rightarrow> new_trace_item | Some tr \<Rightarrow> tr)"

text \<open>
  What \<^verbatim>\<open>put_segment\<close> does to the item of the segment's trace, once the item is found:
  the body of \<open>put_segment\<close> without the dictionary (lemma \<open>put_segment_via_trace\<close>).
\<close>

definition put_trace :: "fromtimestamp \<Rightarrow> trace_item \<Rightarrow> segment \<Rightarrow> py_error option \<times> trace_item" where
  "put_trace F tr segment =
     (case insort_left F (segments tr) segment of
        Inl e \<Rightarrow> (Some e, tr)
      | Inr segs \<Rightarrow>
          (if end_time (last segs) \<noteq> JNull then
             (case seg_start_date F (hd segs) of
                Inl e \<Rightarrow> (Some e, tr\<lparr>segments := segs, finished := True\<rparr>)
              | Inr start_time' \<Rightarrow>
                  (case seg_end_date F (last segs) of
                     Inl e \<Rightarrow> (Some e, tr\<lparr>segments := segs, finished := True\<rparr>)
                   | Inr end_time' \<Rightarrow>
                       (None, tr\<lparr>segments := segs, finished := True,
                                 start_date := start_time', end_date := end_time'\<rparr>)))
           else (None, tr\<lparr>segments := segs\<rparr>)))"

section \<open>Order by start date\<close>

text \<open>
  A segment whose start date can be computed, and that date; \<open>ed\<close> is the end date in
  the same way.
\<close>

definition good :: "fromtimestamp \<Rightarrow> segment \<Rightarrow> bool" where
  "good F x = (case seg_start_date F x of Inl e \<Rightarrow> False | Inr d \<Rightarrow> True)"

definition sd :: "fromtimestamp \<Rightarrow> segment \<Rightarrow> datetime" where
  "sd F x = (case seg_start_date F x of Inl e \<Rightarrow> 0 | Inr d \<Rightarrow> d)"

text \<open>
  Non-decreasing by start date, in the terms of the comparison the code uses: no later
  element is less than an earlier one. For two and more elements this says that all start
  dates exist.
\<close>

definition sorted_by_start :: "fromtimestamp \<Rightarrow> segment list \<Rightarrow> bool" where
  "sorted_by_start F segs = sorted_wrt (\<lambda>a b. lt F b a = Inr False) segs"

definition ed :: "fromtimestamp \<Rightarrow> segment \<Rightarrow> datetime" where
  "ed F x = (case seg_end_date F x of Inl e \<Rightarrow> 0 | Inr d \<Rightarrow> d)"

text \<open>Every trace of the collection is in that order.\<close>

definition store_sorted :: "fromtimestamp \<Rightarrow> store \<Rightarrow> bool" where
  "store_sorted F s = (\<forall>k. sorted_by_start F (segments (trace_at s k)))"

section \<open>Summaries\<close>

text \<open>
  One entry of \<^verbatim>\<open>TraceSummaries\<close>, with the keys of the source (the key \<^verbatim>\<open>Id\<close> is the
  field \<open>Id_tid\<close>), and the dictionary \<^verbatim>\<open>summary\<close> returns.
\<close>

record summary_part =
  Annotations :: json
  Duration :: int
  HasError :: bool
  HasFault :: bool
  HasThrottle :: bool
  Http :: json
  Id_tid :: key
  IsParital :: bool
  ResponseTime :: int
  ServiceIds :: json
  Users :: json

record summary_result =
  ApproximateTime :: int
  TracesProcessedCount :: nat
  TraceSummaries :: "summary_part list"

text \<open>
  Rounding to the nearest integer, ties to even.
\<close>

definition round_half_even :: "rat \<Rightarrow> int" where
  "round_half_even q =
     (let f = \<lfloor>q\<rfloor>; d = q - of_int f in
      if d < 1 / 2 then f else if 1 / 2 < d then f + 1 else if even f then f else f + 1)"

text \<open>
  A Python \<^verbatim>\<open>float\<close> is an IEEE double. \<open>ilog2 a\<close> is the exponent of a positive
  \<open>a\<close>, the \<open>e\<close> with \<open>2 powi e \<le> a < 2 powi (e + 1)\<close>, and \<open>double_of q\<close> is the double
  nearest to \<open>q\<close>: 53 significant bits, ties to even. Overflow and subnormal numbers are
  left out; the quotients below lie between \<open>10 powi -6\<close> and \<open>10 powi 12\<close> in size.
\<close>

definition ilog2 :: "rat \<Rightarrow> int" where
  "ilog2 a =
     (let (n, d) = quotient_of a; e = bitlen n - bitlen d in
      if 2 powi e \<le> a then e else e - 1)"

definition double_of :: "rat \<Rightarrow> rat" where
  "double_of q =
     (if q = 0 then 0
      else let a = \<bar>q\<bar>; ulp = 2 powi (ilog2 a - 52) in
           sgn q * (of_int (round_half_even (a / ulp)) * ulp))"

text \<open>
  \<^verbatim>\<open>timedelta.total_seconds()\<close> is the true division of the microseconds, an \<^verbatim>\<open>int\<close>, by
  \<^verbatim>\<open>10**6\<close>, which Python rounds correctly to a \<^verbatim>\<open>float\<close>; \<^verbatim>\<open>int\<close> drops the fraction
  of a \<^verbatim>\<open>float\<close>.
\<close>

definition total_seconds :: "int \<Rightarrow> rat" where
  "total_seconds us = double_of (of_int us / 1000000)"

definition py_int :: "rat \<Rightarrow> int" where
  "py_int q = (if 0 \<le> q then \<lfloor>q\<rfloor> else \<lceil>q\<rceil>)"

definition has_misc :: "string \<Rightarrow> segment list \<Rightarrow> bool" where
  "has_misc k segs = list_ex (\<lambda>seg. k \<in> set (keys (misc seg))) segs"

definition summary_part_of :: "key \<Rightarrow> trace_item \<Rightarrow> summary_part" where
  "summary_part_of tid trace =
     \<lparr> Annotations = JObj [],
       Duration = py_int (total_seconds (end_date trace - start_date trace)),
       HasError = has_misc ''error'' (segments trace),
       HasFault = has_misc ''fault'' (segments trace),
       HasThrottle = has_misc ''throttle'' (segments trace),
       Http = JObj [],
       Id_tid = tid,
       IsParital = False,
       ResponseTime = 1,
       ServiceIds = JArr [],
       Users = JObj [] \<rparr>"

text \<open>The loop over \<^verbatim>\<open>self._segments.items()\<close>, appending to \<^verbatim>\<open>summaries\<close>.\<close>

fun summaries_loop ::
  "datetime \<Rightarrow> datetime \<Rightarrow> store \<Rightarrow> summary_part list \<Rightarrow> summary_part list" where
  "summaries_loop start_time' end_time' [] summaries = summaries"
| "summaries_loop start_time' end_time' ((tid, trace) # rest) summaries =
     (if finished trace \<and> start_time' < start_date trace \<and> end_date trace < end_time'
      then summaries_loop start_time' end_time' rest (summaries @ [summary_part_of tid trace])
      else summaries_loop start_time' end_time' rest summaries)"

text \<open>
  \<^verbatim>\<open>SegmentCollection.summary\<close>. The first argument is \<^verbatim>\<open>datetime.datetime.now()\<close>. The
  function returns the collection as well, as every operation on it does here; the body
  only reads it.
\<close>

definition summary ::
  "datetime \<Rightarrow> store \<Rightarrow> datetime \<Rightarrow> datetime \<Rightarrow> json \<Rightarrow> bool
     \<Rightarrow> (aws_error + summary_result) \<times> store" where
  "summary now s start_time' end_time' filter_expression sampling =
     (if filter_expression \<noteq> JNull
      then (Inl (AWSError ''Not implemented yet - moto'' ''InternalFailure'' 500), s)
      else
        let summaries = summaries_loop start_time' end_time' s [] in
        (Inr \<lparr> ApproximateTime = py_int (total_seconds (now - 0)),
                TracesProcessedCount = length summaries,
                TraceSummaries = summaries \<rparr>, s))"

section \<open>Ingestion\<close>

text \<open>
  \<^verbatim>\<open>json.loads\<close> is the parameter \<open>L\<close>: the decoded value or the exception it raises,
  a \<^verbatim>\<open>ValueError\<close> for a malformed text, a \<^verbatim>\<open>RecursionError\<close> for a text nested too
  deep.
\<close>

type_synonym loads = "string \<Rightarrow> py_error + json"

text \<open>
  \<^verbatim>\<open>XRayBackend.process_segment\<close>: the exception that leaves the call, if any, and the
  collection. Around \<^verbatim>\<open>json.loads\<close> and around \<^verbatim>\<open>from_dict\<close> only \<^verbatim>\<open>ValueError\<close> is
  caught; around \<^verbatim>\<open>put_segment\<close> every exception is.
\<close>

definition process_segment ::
  "loads \<Rightarrow> fromtimestamp \<Rightarrow> store \<Rightarrow> string \<Rightarrow> exn option \<times> store" where
  "process_segment L F s doc =
     (case L doc of
        Inl ValueError \<Rightarrow>
          (Some (BadSegmentException JNull ''JSONFormatError'' (Lit ''Bad JSON data'')), s)
      | Inl e \<Rightarrow> (Some (PyError e), s)
      | Inr data \<Rightarrow>
          (case from_dict data of
             Inl (PyError ValueError) \<Rightarrow>
               (Some (BadSegmentException JNull ''JSONFormatError'' (Lit ''Bad JSON data'')), s)
           | Inl e \<Rightarrow> (Some e, s)
           | Inr segment \<Rightarrow>
               (case put_segment F s segment of
                  (Some err, s') \<Rightarrow>
                    (Some (BadSegmentException (segment_id segment) ''InternalFailure''
                             (StrOf err)), s')
                | (None, s') \<Rightarrow> (None, s'))))"










section \<open>Examples\<close>

text \<open>
  An instance of the parameter \<open>F\<close> for the examples: \<^verbatim>\<open>fromtimestamp\<close> in a zone
  without offset, rounding to the nearest microsecond, ties to even. \<^verbatim>\<open>True\<close> and
  \<^verbatim>\<open>False\<close> are the integers 1 and 0.
\<close>

fun fromtimestamp_utc :: fromtimestamp where
  "fromtimestamp_utc (JNum t) = Inr (round_half_even (t * 1000000))"
| "fromtimestamp_utc (JBool b) = Inr (if b then 1000000 else 0)"
| "fromtimestamp_utc v = Inl TypeError"

text \<open>A segment of trace \<^verbatim>\<open>t\<close> with the given id, start time and end time.\<close>

definition example_segment :: "string \<Rightarrow> rat \<Rightarrow> json \<Rightarrow> segment" where
  "example_segment sid st et =
     \<lparr> name = JStr ''n'', segment_id = JStr sid, trace_id = JStr ''t'',
       start_time = JNum st, end_time = et, in_progress = JBool False,
       service = JNull, user = JNull, origin = JNull, parent_id = JNull, http = JNull,
       aws = JNull, metadata = JNull, annotations = JNull, subsegments = JNull,
       misc = [(''id'', JStr sid)] \<rparr>"

text \<open>Documents, and \<^verbatim>\<open>json.loads\<close> on them; no other text is used in the examples.\<close>

definition doc_a :: string where
  \<open>doc_a = ''{"id": "a", "name": "n", "trace_id": "t", "start_time": 10, "end_time": 20}''\<close>

definition doc_c :: string where
  \<open>doc_c = ''{"id": "c", "name": "n", "trace_id": "t", "start_time": 30, "end_time": 40}''\<close>


definition doc_number :: string where
  "doc_number = ''5''"

definition example_doc :: "string \<Rightarrow> rat \<Rightarrow> rat \<Rightarrow> json" where
  "example_doc sid st et =
     JObj [(''id'', JStr sid), (''name'', JStr ''n''), (''trace_id'', JStr ''t''),
           (''start_time'', JNum st), (''end_time'', JNum et)]"

definition doc_late :: string where
  \<open>doc_late = ''{"id": "b", "name": "n", "trace_id": "t", "start_time": "soon", "end_time": 25}''\<close>

definition example_loads :: loads where
  "example_loads doc =
     (if doc = doc_a then Inr (example_doc ''a'' 10 20)
      else if doc = doc_c then Inr (example_doc ''c'' 30 40)
      else if doc = doc_late then
        Inr (JObj [(''id'', JStr ''b''), (''name'', JStr ''n''), (''trace_id'', JStr ''t''),
                   (''start_time'', JStr ''soon''), (''end_time'', JNum 25)])
      else if doc = doc_number then Inr (JNum 5)
      else Inl ValueError)"

definition doc_id_only :: dict where
  "doc_id_only = [(''id'', JStr ''abc'')]"

definition doc_false_string :: dict where
  "doc_false_string = [(''id'', JStr ''a''), (''in_progress'', JStr ''false'')]"

definition doc_open_string :: dict where
  "doc_open_string = [(''id'', JStr ''a''), (''name'', JStr ''n''), (''trace_id'', JStr ''t''),
     (''start_time'', JNum 10), (''in_progress'', JStr ''false'')]"

definition doc_open_bool :: dict where
  "doc_open_bool = [(''id'', JStr ''a''), (''name'', JStr ''n''), (''trace_id'', JStr ''t''),
     (''start_time'', JNum 10), (''in_progress'', JBool False)]"

section \<open>Lemmas: sorted insertion\<close>

lemma good_sd: "good F x \<Longrightarrow> seg_start_date F x = Inr (sd F x)"
  by (simp add: good_def sd_def split: sum.splits)

lemma lt_good: "good F a \<Longrightarrow> good F b \<Longrightarrow> lt F a b = Inr (sd F a < sd F b)"
  by (simp add: lt_def good_sd)

lemma lt_Inr_good: "lt F a b = Inr v \<Longrightarrow> good F a \<and> good F b"
  by (auto simp: lt_def good_def split: sum.splits)

lemma lt_Inr_iff: "lt F a b = Inr v \<longleftrightarrow> good F a \<and> good F b \<and> v = (sd F a < sd F b)"
  by (auto simp: lt_def good_def sd_def split: sum.splits)

lemma bisect_left_spec:
  "\<lbrakk> \<forall>a\<in>set xs. good F a; good F x; sorted (map (sd F) xs);
     lo \<le> hi; hi \<le> length xs;
     \<forall>i<lo. sd F (xs ! i) < sd F x;
     \<forall>i. hi \<le> i \<longrightarrow> i < length xs \<longrightarrow> sd F x \<le> sd F (xs ! i) \<rbrakk>
   \<Longrightarrow> \<exists>k. bisect_left F xs x lo hi = Inr k \<and> k \<le> length xs
          \<and> (\<forall>i<k. sd F (xs ! i) < sd F x)
          \<and> (\<forall>i. k \<le> i \<longrightarrow> i < length xs \<longrightarrow> sd F x \<le> sd F (xs ! i))"
proof (induction F xs x lo hi rule: bisect_left.induct)
  case (1 F a x lo hi)
  show ?case
  proof (cases "lo < hi")
    case False
    with "1.prems" have "bisect_left F a x lo hi = Inr lo" "lo = hi"
      by (simp_all add: bisect_left.simps)
    with "1.prems" show ?thesis by auto
  next
    case True
    define mid where "mid = (lo + hi) div 2"
    have mid: "lo \<le> mid" "mid < hi" "mid < length a"
      using True "1.prems"(5) by (auto simp: mid_def)
    have gm: "good F (a ! mid)"
      using "1.prems"(1) mid(3) by simp
    have cmp: "lt F (a ! mid) x = Inr (sd F (a ! mid) < sd F x)"
      using gm "1.prems"(2) by (rule lt_good)
    have mono: "\<And>i j. i \<le> j \<Longrightarrow> j < length a \<Longrightarrow> sd F (a ! i) \<le> sd F (a ! j)"
      using "1.prems"(3) by (simp add: sorted_iff_nth_mono)
    show ?thesis
    proof (cases "sd F (a ! mid) < sd F x")
      case less: True
      have below: "\<forall>i<mid + 1. sd F (a ! i) < sd F x"
      proof (intro allI impI)
        fix i assume "i < mid + 1"
        then have "sd F (a ! i) \<le> sd F (a ! mid)" using mono mid(3) by simp
        with less show "sd F (a ! i) < sd F x" by simp
      qed
      have "\<exists>k. bisect_left F a x (mid + 1) hi = Inr k \<and> k \<le> length a
          \<and> (\<forall>i<k. sd F (a ! i) < sd F x)
          \<and> (\<forall>i. k \<le> i \<longrightarrow> i < length a \<longrightarrow> sd F x \<le> sd F (a ! i))"
        using "1.IH"(1) [OF True mid_def _ _ "1.prems"(1,2,3) _ "1.prems"(5) below "1.prems"(7)]
          cmp less mid by simp
      moreover have "bisect_left F a x lo hi = bisect_left F a x (mid + 1) hi"
        using True cmp less by (subst bisect_left.simps) (simp add: mid_def)
      ultimately show ?thesis by simp
    next
      case geq: False
      have above: "\<forall>i. mid \<le> i \<longrightarrow> i < length a \<longrightarrow> sd F x \<le> sd F (a ! i)"
      proof (intro allI impI)
        fix i assume "mid \<le> i" "i < length a"
        then have "sd F (a ! mid) \<le> sd F (a ! i)" using mono by simp
        with geq show "sd F x \<le> sd F (a ! i)" by simp
      qed
      have "\<exists>k. bisect_left F a x lo mid = Inr k \<and> k \<le> length a
          \<and> (\<forall>i<k. sd F (a ! i) < sd F x)
          \<and> (\<forall>i. k \<le> i \<longrightarrow> i < length a \<longrightarrow> sd F x \<le> sd F (a ! i))"
        using "1.IH"(2) [OF True mid_def _ _ "1.prems"(1,2,3) mid(1) _ "1.prems"(6) above]
          cmp geq mid by simp
      moreover have "bisect_left F a x lo hi = bisect_left F a x lo mid"
        using True cmp geq by (subst bisect_left.simps) (simp add: mid_def)
      ultimately show ?thesis by simp
    qed
  qed
qed

lemma bisect_left_first_probe:
  assumes "bisect_left F xs x lo hi = Inr k" and "lo < hi"
  shows "good F x \<and> good F (xs ! ((lo + hi) div 2))"
proof -
  have "\<exists>v. lt F (xs ! ((lo + hi) div 2)) x = Inr v"
    using assms by (subst (asm) bisect_left.simps) (auto simp: Let_def split: sum.splits)
  then show ?thesis using lt_Inr_good by blast
qed

lemma bisect_left_Nil: "bisect_left F [] x 0 0 = Inr 0"
  by (subst bisect_left.simps) simp

lemma insort_left_good:
  assumes "\<forall>a\<in>set xs. good F a" and "good F x" and "sorted (map (sd F) xs)"
  shows "\<exists>pre post. insort_left F xs x = Inr (pre @ x # post) \<and> xs = pre @ post
           \<and> (\<forall>a\<in>set pre. sd F a < sd F x) \<and> (\<forall>b\<in>set post. sd F x \<le> sd F b)"
proof -
  obtain k where k: "bisect_left F xs x 0 (length xs) = Inr k" "k \<le> length xs"
      "\<forall>i<k. sd F (xs ! i) < sd F x"
      "\<forall>i. k \<le> i \<longrightarrow> i < length xs \<longrightarrow> sd F x \<le> sd F (xs ! i)"
    using bisect_left_spec [OF assms, of 0 "length xs"] by auto
  have pre: "\<forall>a\<in>set (take k xs). sd F a < sd F x"
    using k(2,3) by (auto simp: in_set_conv_nth)
  have post: "\<forall>b\<in>set (drop k xs). sd F x \<le> sd F b"
    using k(2,4) by (auto simp: in_set_conv_nth)
  have "insort_left F xs x = Inr (take k xs @ x # drop k xs)"
    by (simp add: insort_left_def k(1))
  with pre post show ?thesis
    by (metis append_take_drop_id)
qed

lemma sorted_by_start_all_good:
  assumes "sorted_by_start F xs" and "2 \<le> length xs"
  shows "\<forall>a\<in>set xs. good F a"
proof
  fix a assume "a \<in> set xs"
  then obtain i where i: "i < length xs" "xs ! i = a"
    by (auto simp: in_set_conv_nth)
  have nth: "\<And>p q. p < q \<Longrightarrow> q < length xs \<Longrightarrow> lt F (xs ! q) (xs ! p) = Inr False"
    using assms(1) by (simp add: sorted_by_start_def sorted_wrt_iff_nth_less)
  show "good F a"
  proof (cases "i = 0")
    case True
    with nth [of 0 1] assms(2) i lt_Inr_good show ?thesis by fastforce
  next
    case False
    with nth [of 0 i] i lt_Inr_good show ?thesis by fastforce
  qed
qed

lemma sorted_by_start_sd:
  assumes "sorted_by_start F xs" and "\<forall>a\<in>set xs. good F a"
  shows "sorted (map (sd F) xs)"
proof -
  have "sorted_wrt (\<lambda>a b. sd F a \<le> sd F b) xs"
    using assms(1) unfolding sorted_by_start_def
    by (rule sorted_wrt_mono_rel [rotated]) (auto simp: lt_Inr_iff)
  then show ?thesis by (simp add: sorted_map)
qed

lemma insort_left_sorted:
  assumes "sorted_by_start F xs" and "insort_left F xs x = Inr ys"
  shows "\<exists>pre post. xs = pre @ post \<and> ys = pre @ x # post
           \<and> (\<forall>a\<in>set pre. lt F a x = Inr True) \<and> (\<forall>b\<in>set post. lt F b x = Inr False)
           \<and> sorted_by_start F ys"
proof (cases "xs = []")
  case True
  with assms(2) have "ys = [x]"
    by (simp add: insort_left_def bisect_left_Nil)
  with True show ?thesis by (simp add: sorted_by_start_def)
next
  case False
  obtain k where k: "bisect_left F xs x 0 (length xs) = Inr k"
    using assms(2) by (auto simp: insort_left_def split: sum.splits)
  have probe: "good F x" "good F (xs ! (length xs div 2))"
    using bisect_left_first_probe [OF k] False by simp_all
  have allgood: "\<forall>a\<in>set xs. good F a"
  proof (cases "2 \<le> length xs")
    case True
    with assms(1) show ?thesis by (rule sorted_by_start_all_good)
  next
    case False
    then have "length xs < 2" by simp
    moreover have "0 < length xs" using \<open>xs \<noteq> []\<close> by simp
    ultimately have "length xs = 1" by arith
    then obtain a where "xs = [a]" by (cases xs) auto
    with probe(2) show ?thesis by simp
  qed
  have srt: "sorted (map (sd F) xs)"
    using assms(1) allgood by (rule sorted_by_start_sd)
  obtain pre post where pp: "insort_left F xs x = Inr (pre @ x # post)" "xs = pre @ post"
      "\<forall>a\<in>set pre. sd F a < sd F x" "\<forall>b\<in>set post. sd F x \<le> sd F b"
    using insort_left_good [OF allgood probe(1) srt] by blast
  have ys: "ys = pre @ x # post" using pp(1) assms(2) by simp
  have g: "\<forall>a\<in>set pre \<union> set post. good F a" using allgood pp(2) by simp
  have l: "\<forall>a\<in>set pre. lt F a x = Inr True"
    using pp(3) g probe(1) by (simp add: lt_good)
  have r: "\<forall>b\<in>set post. lt F b x = Inr False"
    using pp(4) g probe(1) by (simp add: lt_good not_less)
  have "sorted_by_start F ys"
    using assms(1) l r pp(3) g probe(1) unfolding ys pp(2) sorted_by_start_def
    by (auto simp: sorted_wrt_append lt_good not_less)
  with pp(2) ys l r show ?thesis by blast
qed

lemma map_of_getitem:
  "getitem s k = (tr, s1) \<Longrightarrow> map_of s1 k = Some tr \<and> tr = trace_at s k
     \<and> (\<forall>k'. k' \<noteq> k \<longrightarrow> map_of s1 k' = map_of s k')"
  by (auto simp: getitem_def trace_at_def map_add_def split: option.splits)

lemma put_segment_via_trace:
  "put_segment F s seg =
     (case dict_key (trace_id seg) of
        Inl e \<Rightarrow> (Some e, s)
      | Inr k \<Rightarrow> (case put_trace F (trace_at s k) seg of
                   (r, tr') \<Rightarrow> (r, AList.update k tr' (snd (getitem s k)))))"
proof (cases "dict_key (trace_id seg)")
  case (Inl e)
  then show ?thesis by (simp add: put_segment_def)
next
  case (Inr k)
  obtain tr s1 where g: "getitem s k = (tr, s1)" by (cases "getitem s k")
  from map_of_getitem [OF g] have m: "map_of s1 k = Some tr" "tr = trace_at s k" by simp_all
  have triv: "AList.update k tr s1 = s1" using m(1) by (rule AList.update_triv)
  show ?thesis
  proof (cases "insort_left F (segments tr) seg")
    case (Inl e)
    with Inr g m(2) triv show ?thesis
      by (simp add: put_segment_def put_trace_def)
  next
    case segs: (Inr segs)
    show ?thesis
    proof (cases "end_time (last segs) = JNull")
      case True
      with Inr g m(2) segs show ?thesis
        by (simp add: put_segment_def put_trace_def)
    next
      case False
      show ?thesis
      proof (cases "seg_start_date F (hd segs)")
        case (Inl e)
        with Inr g m(2) segs False show ?thesis
          by (simp add: put_segment_def put_trace_def)
      next
        case st: (Inr st)
        show ?thesis
        proof (cases "seg_end_date F (last segs)")
          case (Inl e)
          with Inr g m(2) segs False st show ?thesis
            by (simp add: put_segment_def put_trace_def)
        next
          case et: (Inr et)
          with Inr g m(2) segs False st show ?thesis
            by (simp add: put_segment_def put_trace_def)
        qed
      qed
    qed
  qed
qed

lemma trace_at_update: "trace_at (AList.update k tr s) k' = (if k' = k then tr else trace_at s k')"
  by (simp add: trace_at_def AList.update_conv')

lemma trace_at_getitem:
  "trace_at (snd (getitem s k)) k' = trace_at s k'"
  by (auto simp: getitem_def trace_at_def split: option.splits if_splits)

lemma put_segment_trace_at:
  assumes "dict_key (trace_id seg) = Inr k"
  shows "put_trace F (trace_at s k) seg =
           (fst (put_segment F s seg), trace_at (snd (put_segment F s seg)) k)"
    and "k' \<noteq> k \<Longrightarrow> trace_at (snd (put_segment F s seg)) k' = trace_at s k'"
  using assms
  by (simp_all add: put_segment_via_trace trace_at_update trace_at_getitem split: prod.splits)

lemma put_segment_key_error:
  "dict_key (trace_id seg) = Inl e \<Longrightarrow> put_segment F s seg = (Some e, s)"
  by (simp add: put_segment_def)

lemma put_trace_cases:
  assumes "put_trace F tr seg = (r, tr')"
  obtains (raised) e where "insort_left F (segments tr) seg = Inl e" "r = Some e" "tr' = tr"
  | (opened) segs where "insort_left F (segments tr) seg = Inr segs"
      "end_time (last segs) = JNull" "r = None" "tr' = tr\<lparr>segments := segs\<rparr>"
  | (closed) segs st et where "insort_left F (segments tr) seg = Inr segs"
      "end_time (last segs) \<noteq> JNull" "r = None"
      "seg_start_date F (hd segs) = Inr st" "seg_end_date F (last segs) = Inr et"
      "tr' = tr\<lparr>segments := segs, finished := True, start_date := st, end_date := et\<rparr>"
  | (failed) segs e where "insort_left F (segments tr) seg = Inr segs"
      "end_time (last segs) \<noteq> JNull" "r = Some e"
      "tr' = tr\<lparr>segments := segs, finished := True\<rparr>"
  using assms unfolding put_trace_def
  by (auto split: sum.splits if_splits)

lemma insort_left_not_Nil: "insort_left F xs x = Inr ys \<Longrightarrow> ys \<noteq> []"
  by (auto simp: insort_left_def split: sum.splits)

lemma put_trace_sorted:
  assumes "sorted_by_start F (segments tr)"
  shows "sorted_by_start F (segments (snd (put_trace F tr seg)))"
proof -
  obtain r tr' where p: "put_trace F tr seg = (r, tr')" by (cases "put_trace F tr seg")
  from p show ?thesis
    by (cases rule: put_trace_cases) (use assms p insort_left_sorted in \<open>auto\<close>)
qed

lemma put_segment_sorted:
  assumes "store_sorted F s"
  shows "store_sorted F (snd (put_segment F s seg))"
proof (cases "dict_key (trace_id seg)")
  case (Inl e)
  with assms show ?thesis by (simp add: put_segment_key_error)
next
  case (Inr k)
  have "sorted_by_start F (segments (trace_at (snd (put_segment F s seg)) k'))" for k'
  proof (cases "k' = k")
    case True
    have "trace_at (snd (put_segment F s seg)) k = snd (put_trace F (trace_at s k) seg)"
      using put_segment_trace_at(1) [OF Inr, of F s] by simp
    with True assms put_trace_sorted show ?thesis by (simp add: store_sorted_def)
  next
    case False
    with put_segment_trace_at(2) [OF Inr] assms show ?thesis by (simp add: store_sorted_def)
  qed
  then show ?thesis by (simp add: store_sorted_def)
qed

lemma foldl_put_sorted:
  "store_sorted F s \<Longrightarrow> store_sorted F (foldl (\<lambda>s x. snd (put_segment F s x)) s history)"
  by (induction history arbitrary: s) (simp_all add: put_segment_sorted)

lemma puts_sorted: "store_sorted F (puts F history)"
  unfolding puts_def
  by (rule foldl_put_sorted) (simp add: store_sorted_def trace_at_def new_trace_item_def sorted_by_start_def)

lemma sorted_hd_Min_map:
  assumes "sorted (map f xs)" and "xs \<noteq> []"
  shows "Min (f ` set xs) = f (hd xs)"
proof (rule Min_eqI)
  show "finite (f ` set xs)" by simp
  show "f (hd xs) \<in> f ` set xs" using assms(2) by simp
  fix y assume "y \<in> f ` set xs"
  then obtain i where "i < length xs" "y = f (xs ! i)"
    by (auto simp: in_set_conv_nth)
  moreover have "f (hd xs) = map f xs ! 0" using assms(2) by (simp add: hd_conv_nth)
  ultimately show "f (hd xs) \<le> y"
    using assms(1) sorted_nth_mono [of "map f xs" 0 i] by simp
qed

lemma sorted_by_start_good_hd:
  assumes "sorted_by_start F xs" and "xs \<noteq> []" and "good F (hd xs)"
  shows "\<forall>a\<in>set xs. good F a"
proof (cases "2 \<le> length xs")
  case True
  with assms(1) show ?thesis by (rule sorted_by_start_all_good)
next
  case False
  then have "length xs < 2" by simp
  moreover have "0 < length xs" using assms(2) by simp
  ultimately have "length xs = 1" by arith
  then obtain a where "xs = [a]" by (cases xs) auto
  with assms(3) show ?thesis by simp
qed

section \<open>Lemmas: summaries\<close>

lemma summaries_loop_eq:
  "summaries_loop st et s acc =
     acc @ map (\<lambda>(tid, tr). summary_part_of tid tr)
             (filter (\<lambda>(tid, tr). finished tr \<and> st < start_date tr \<and> end_date tr < et) s)"
  by (induction st et s acc rule: summaries_loop.induct) simp_all

lemma Id_tid_summary_part_of: "Id_tid (summary_part_of tid tr) = tid"
  by (simp add: summary_part_of_def)


lemma round_half_even_error: "\<bar>of_int (round_half_even x) - x\<bar> \<le> 1 / 2"
proof -
  have "of_int \<lfloor>x\<rfloor> \<le> x" "x < of_int \<lfloor>x\<rfloor> + 1" by linarith+
  then show ?thesis
    by (auto simp: round_half_even_def Let_def)
qed

lemma round_half_even_of_int [simp]: "round_half_even (of_int z) = z"
  by (simp add: round_half_even_def)

lemma ilog2_le:
  assumes "0 < a"
  shows "2 powi (ilog2 a) \<le> a"
proof -
  obtain n d where q: "quotient_of a = (n, d)" by (cases "quotient_of a")
  then have d: "0 < d" and a: "a = of_int n / of_int d"
    by (simp_all add: quotient_of_denom_pos quotient_of_div)
  from assms a d have n: "0 < n" by (simp add: zero_less_divide_iff)
  show ?thesis
  proof (cases "2 powi (bitlen n - bitlen d) \<le> a")
    case True
    with q show ?thesis by (simp add: ilog2_def)
  next
    case False
    with q have e: "ilog2 a = bitlen n - bitlen d - 1" by (simp add: ilog2_def)
    have bn: "1 \<le> bitlen n" using n bitlen_eq_zero_iff [of n] bitlen_nonneg [of n] by linarith
    have "(2::int) ^ nat (bitlen n - 1) \<le> n" using bitlen_bounds [OF n] by simp
    then have "of_int ((2::int) ^ nat (bitlen n - 1)) \<le> (of_int n :: rat)"
      by (simp only: of_int_le_iff)
    then have num: "(2::rat) ^ nat (bitlen n - 1) \<le> of_int n" by simp
    have "d < 2 ^ nat (bitlen d)" using bitlen_bounds [OF d] by simp
    then have "(of_int d :: rat) < of_int ((2::int) ^ nat (bitlen d))"
      by (simp only: of_int_less_iff)
    then have den: "(of_int d :: rat) \<le> 2 ^ nat (bitlen d)" by simp
    have "(2::rat) powi (bitlen n - bitlen d - 1) = 2 powi (bitlen n - 1) / 2 powi (bitlen d)"
      using power_int_diff [of "2::rat" "bitlen n - 1" "bitlen d"] by (simp add: algebra_simps)
    also have "\<dots> = 2 ^ nat (bitlen n - 1) / 2 ^ nat (bitlen d)"
      using bn bitlen_nonneg [of d] by (simp add: power_int_def)
    also have "\<dots> \<le> of_int n / of_int d"
      using num den d n by (intro frac_le) simp_all
    finally show ?thesis using e a by simp
  qed
qed

lemma double_of_minus: "double_of (- q) = - double_of q"
  by (simp add: double_of_def Let_def sgn_minus)

text \<open>
  Below \<open>2 ^ 34\<close> seconds a double is nearer than half a microsecond to the quotient it
  rounds, and a whole number of seconds is a double: rounding does not reach the next
  integer.
\<close>

lemma double_of_small:
  fixes n :: int
  assumes "0 < n" and "n < 17179869184000000"
  shows "\<lfloor>double_of (of_int n / 1000000)\<rfloor> = n div 1000000
       \<and> 0 \<le> double_of (of_int n / 1000000)"
proof -
  define a :: rat where "a = of_int n / 1000000"
  have apos: "0 < a" using assms(1) by (simp add: a_def)
  have alt: "a < 2 powi 34" using assms(2) by (simp add: a_def)
  define e where "e = ilog2 a"
  have "2 powi e \<le> a" unfolding e_def using apos by (rule ilog2_le)
  with alt have "(2::rat) powi e < 2 powi 34" by simp
  then have e: "e \<le> 33"
    using power_int_increasing [of 34 e "2::rat"] by (cases "34 \<le> e") auto
  define j where "j = nat (52 - e)"
  have j: "19 \<le> j" using e by (simp add: j_def)
  have ulp: "(2::rat) powi (e - 52) = 1 / 2 ^ j"
    using e by (simp add: power_int_def j_def field_simps)
  define m where "m = round_half_even (a * 2 ^ j)"
  define r :: rat where "r = of_int m / 2 ^ j"
  have dbl: "double_of a = r"
    using apos by (simp add: double_of_def Let_def e_def [symmetric] ulp m_def r_def)
  have "\<bar>of_int m - a * 2 ^ j\<bar> \<le> 1 / 2" unfolding m_def by (rule round_half_even_error)
  then have "\<bar>of_int m - a * 2 ^ j\<bar> / 2 ^ j \<le> (1 / 2) / 2 ^ j"
    by (rule divide_right_mono) simp
  moreover have "r - a = (of_int m - a * 2 ^ j) / 2 ^ j"
    by (simp add: r_def diff_divide_distrib)
  then have "\<bar>r - a\<bar> = \<bar>of_int m - a * 2 ^ j\<bar> / 2 ^ j"
    by (simp only: abs_divide) simp
  ultimately have err: "\<bar>r - a\<bar> \<le> (1 / 2) / 2 ^ j"
    by (simp only:)
  have p: "(2::rat) ^ 19 \<le> 2 ^ j" using j by (intro power_increasing) simp_all
  note err
  also have "(1 / 2) / (2::rat) ^ j \<le> (1 / 2) / 2 ^ 19"
    using p by (rule divide_left_mono) simp_all
  also have "(1 / 2) / (2::rat) ^ 19 = 1 / 1048576" by simp
  finally have err': "\<bar>r - a\<bar> \<le> 1 / 1048576" .
  define k where "k = n div 1000000"
  define t where "t = n mod 1000000"
  have n: "n = k * 1000000 + t" and t: "0 \<le> t" "t < 1000000"
    by (simp_all add: k_def t_def)
  have k: "0 \<le> k" using assms(1) by (simp add: k_def pos_imp_zdiv_nonneg_iff)
  have a: "a = of_int k + of_int t / 1000000"
    by (simp add: a_def n add_divide_distrib)
  have "of_int k \<le> r \<and> r < of_int k + 1"
  proof (cases "t = 0")
    case True
    then have "a * 2 ^ j = of_int (k * 2 ^ j)" by (simp add: a)
    then have "m = k * 2 ^ j" unfolding m_def by (simp only: round_half_even_of_int)
    then have "r = of_int k" by (simp add: r_def)
    then show ?thesis by simp
  next
    case False
    with t have "1 \<le> t" "t \<le> 999999" by simp_all
    then have "(1::rat) \<le> of_int t" "(of_int t :: rat) \<le> 999999"
      by simp_all
    then have "of_int k + 1 / 1000000 \<le> a" "a \<le> of_int k + 999999 / 1000000"
      by (simp_all add: a divide_right_mono)
    moreover from err' have "r - a \<le> 1 / 1048576" "a - r \<le> 1 / 1048576"
      by linarith+
    ultimately show ?thesis by linarith
  qed
  then have "\<lfloor>r\<rfloor> = k" "0 \<le> r" using k by (simp_all add: floor_unique)
  then show ?thesis by (simp add: dbl [unfolded a_def] k_def)
qed

lemma py_int_total_seconds:
  assumes "\<bar>d\<bar> < 17179869184000000"
  shows "py_int (total_seconds d) =
     (if 0 \<le> d then d div 1000000 else - ((- d) div 1000000))"
proof -
  consider "d = 0" | "0 < d" | "d < 0" by linarith
  then show ?thesis
  proof cases
    case 1
    then show ?thesis by (simp add: py_int_def total_seconds_def double_of_def)
  next
    case 2
    with assms double_of_small [of d] show ?thesis
      by (simp add: py_int_def total_seconds_def)
  next
    case 3
    with assms double_of_small [of "- d"]
    have r: "\<lfloor>double_of (of_int (- d) / 1000000)\<rfloor> = (- d) div 1000000"
      "0 \<le> double_of (of_int (- d) / 1000000)"
      by simp_all
    have m: "double_of (of_int d / 1000000) = - double_of (of_int (- d) / 1000000)"
      using double_of_minus [of "of_int (- d) / 1000000"] by simp
    show ?thesis
    proof (cases "double_of (of_int (- d) / 1000000) = 0")
      case True
      with r(1) 3 show ?thesis by (simp add: py_int_def total_seconds_def m)
    next
      case False
      with r(2) have "0 < double_of (of_int (- d) / 1000000)" by simp
      with r(1) 3 show ?thesis
        by (simp add: py_int_def total_seconds_def m ceiling_def)
    qed
  qed
qed

section \<open>Lemmas: ingestion\<close>







section \<open>TraceSegment.from_dict\<close>

lemma keys_update: "set (keys (AList.update k v d)) = insert k (set (keys d))"
  by (simp add: keys_def AList.dom_update)

lemma in_keys_iff: "k \<in> set (keys d) \<longleftrightarrow> map_of d k \<noteq> None"
  by (simp add: keys_def map_of_eq_None_iff)

text \<open>
  Claim C9, amended. A document that decodes to an object without the key \<^verbatim>\<open>id\<close> is
  rejected with code \<^verbatim>\<open>MissingParam\<close> and no segment id. An object with \<^verbatim>\<open>id\<close> that lacks
  one of \<^verbatim>\<open>name\<close>, \<^verbatim>\<open>trace_id\<close>, \<^verbatim>\<open>start_time\<close> is rejected with code
  \<^verbatim>\<open>MissingParam\<close> and the value of \<^verbatim>\<open>id\<close> as segment id; so is \<^verbatim>\<open>{"id": "abc"}\<close>, with
  segment id \<^verbatim>\<open>abc\<close>.
\<close>

theorem from_dict_missing_mandatory:
  "(map_of data ''id'' = None \<longrightarrow>
      from_dict (JObj data) =
        Inl (BadSegmentException JNull ''MissingParam'' (Lit ''Missing segment ID'')))
   \<and> (map_of data ''id'' = Some sid
        \<and> (''name'' \<notin> set (keys data) \<or> ''trace_id'' \<notin> set (keys data)
             \<or> ''start_time'' \<notin> set (keys data)) \<longrightarrow>
      from_dict (JObj data) =
        Inl (BadSegmentException sid ''MissingParam'' (Lit ''Missing segment ID'')))"
  by (auto simp: from_dict_obj_def keys_update Let_def)

theorem from_dict_missing_mandatory_witness:
  "map_of doc_id_only ''id'' = Some (JStr ''abc'')
   \<and> ''name'' \<notin> set (keys doc_id_only)
   \<and> from_dict (JObj doc_id_only) =
        Inl (BadSegmentException (JStr ''abc'') ''MissingParam'' (Lit ''Missing segment ID''))
   \<and> map_of [(''name'', JStr ''n'')] ''id'' = None
   \<and> from_dict (JObj [(''name'', JStr ''n'')]) =
        Inl (BadSegmentException JNull ''MissingParam'' (Lit ''Missing segment ID''))"
proof -
  have h: "map_of doc_id_only ''id'' = Some (JStr ''abc'')" "''name'' \<notin> set (keys doc_id_only)"
    "map_of [(''name'', JStr ''n'')] ''id'' = None"
    by (simp_all add: doc_id_only_def keys_def)
  from from_dict_missing_mandatory [of doc_id_only "JStr ''abc''"]
    from_dict_missing_mandatory [of "[(''name'', JStr ''n'')]" JNull] h
  show ?thesis by simp
qed

text \<open>
  Claim C9 as stated, for every raw document, fails on a document that is no object: the
  text \<^verbatim>\<open>5\<close> decodes to a number, which has no \<^verbatim>\<open>id\<close>, and \<^verbatim>\<open>'id' not in data\<close> raises a
  \<^verbatim>\<open>TypeError\<close> that leaves \<^verbatim>\<open>process_segment\<close> as it is, not a rejection.
\<close>

theorem from_dict_not_object_counterexample:
  "example_loads doc_number = Inr (JNum 5)
   \<and> from_dict (JNum 5) = Inl (PyError TypeError)
   \<and> process_segment example_loads fromtimestamp_utc [] doc_number = (Some (PyError TypeError), [])"
  by (simp add: example_loads_def doc_number_def doc_a_def doc_c_def doc_late_def
        process_segment_def)

text \<open>
  Claim C5, amended. For a document with the keys \<^verbatim>\<open>id\<close>, \<^verbatim>\<open>name\<close>, \<^verbatim>\<open>trace_id\<close> and
  \<^verbatim>\<open>start_time\<close>, parsing fails with the rejection \<^verbatim>\<open>Missing end_time\<close> (code
  \<^verbatim>\<open>MissingParam\<close>, the segment id attached) exactly when \<^verbatim>\<open>end_time\<close> is absent and
  \<^verbatim>\<open>in_progress\<close> is the string \<^verbatim>\<open>"false"\<close>. With \<^verbatim>\<open>end_time\<close> absent and
  \<^verbatim>\<open>in_progress\<close> the boolean \<^verbatim>\<open>false\<close> no rejection is raised at all.
\<close>

theorem from_dict_missing_end_time:
  assumes "map_of data ''id'' = Some sid"
    and "''name'' \<in> set (keys data)" and "''trace_id'' \<in> set (keys data)"
    and "''start_time'' \<in> set (keys data)"
  shows "(from_dict (JObj data) =
            Inl (BadSegmentException sid ''MissingParam'' (Lit ''Missing end_time''))
          \<longleftrightarrow> ''end_time'' \<notin> set (keys data)
               \<and> map_of data ''in_progress'' = Some (JStr ''false''))
       \<and> (''end_time'' \<notin> set (keys data) \<and> map_of data ''in_progress'' = Some (JBool False)
            \<longrightarrow> (\<forall>i c m. from_dict (JObj data) \<noteq> Inl (BadSegmentException i c m)))"
  using assms
  by (auto simp: from_dict_obj_def keys_update Let_def in_keys_iff init_segment_def
        AList.update_conv' split: option.splits)

theorem from_dict_missing_end_time_witness:
  "map_of doc_open_string ''id'' = Some (JStr ''a'')
   \<and> ''name'' \<in> set (keys doc_open_string) \<and> ''trace_id'' \<in> set (keys doc_open_string)
   \<and> ''start_time'' \<in> set (keys doc_open_string)
   \<and> ''end_time'' \<notin> set (keys doc_open_string)
   \<and> map_of doc_open_string ''in_progress'' = Some (JStr ''false'')
   \<and> from_dict (JObj doc_open_string) =
        Inl (BadSegmentException (JStr ''a'') ''MissingParam'' (Lit ''Missing end_time''))
   \<and> map_of doc_open_bool ''id'' = Some (JStr ''a'')
   \<and> ''name'' \<in> set (keys doc_open_bool) \<and> ''trace_id'' \<in> set (keys doc_open_bool)
   \<and> ''start_time'' \<in> set (keys doc_open_bool)
   \<and> ''end_time'' \<notin> set (keys doc_open_bool)
   \<and> map_of doc_open_bool ''in_progress'' = Some (JBool False)
   \<and> from_dict (JObj doc_open_bool) \<noteq>
        Inl (BadSegmentException (JStr ''a'') ''MissingParam'' (Lit ''Missing end_time''))"
proof -
  have s: "map_of doc_open_string ''id'' = Some (JStr ''a'')"
    "''name'' \<in> set (keys doc_open_string)" "''trace_id'' \<in> set (keys doc_open_string)"
    "''start_time'' \<in> set (keys doc_open_string)"
    "''end_time'' \<notin> set (keys doc_open_string)"
    "map_of doc_open_string ''in_progress'' = Some (JStr ''false'')"
    by (simp_all add: doc_open_string_def keys_def)
  have b: "map_of doc_open_bool ''id'' = Some (JStr ''a'')"
    "''name'' \<in> set (keys doc_open_bool)" "''trace_id'' \<in> set (keys doc_open_bool)"
    "''start_time'' \<in> set (keys doc_open_bool)"
    "''end_time'' \<notin> set (keys doc_open_bool)"
    "map_of doc_open_bool ''in_progress'' = Some (JBool False)"
    by (simp_all add: doc_open_bool_def keys_def)
  from from_dict_missing_end_time [OF s(1-4)] s(5,6)
  have 1: "from_dict (JObj doc_open_string) =
        Inl (BadSegmentException (JStr ''a'') ''MissingParam'' (Lit ''Missing end_time''))"
    by simp
  from from_dict_missing_end_time [OF b(1-4)] b(5,6)
  have 2: "from_dict (JObj doc_open_bool) \<noteq>
        Inl (BadSegmentException (JStr ''a'') ''MissingParam'' (Lit ''Missing end_time''))"
    by simp
  from s b 1 2 show ?thesis by simp
qed

text \<open>
  Claim C5 as stated, for every document with \<^verbatim>\<open>id\<close>, fails. In
  \<^verbatim>\<open>{"id": "a", "in_progress": "false"}\<close> the end time is absent and \<^verbatim>\<open>in_progress\<close> is the
  string \<^verbatim>\<open>"false"\<close>, but the check of \<^verbatim>\<open>name\<close> comes first and the rejection is the one
  of line 93, \<^verbatim>\<open>Missing segment ID\<close>. And \<^verbatim>\<open>{"id": "abc"}\<close>, without \<^verbatim>\<open>in_progress\<close>, is
  rejected with code \<^verbatim>\<open>MissingParam\<close> and its segment id all the same.
\<close>

theorem from_dict_missing_end_time_counterexample:
  "map_of doc_false_string ''id'' = Some (JStr ''a'')
   \<and> ''end_time'' \<notin> set (keys doc_false_string)
   \<and> map_of doc_false_string ''in_progress'' = Some (JStr ''false'')
   \<and> from_dict (JObj doc_false_string) =
        Inl (BadSegmentException (JStr ''a'') ''MissingParam'' (Lit ''Missing segment ID''))
   \<and> from_dict (JObj doc_false_string) \<noteq>
        Inl (BadSegmentException (JStr ''a'') ''MissingParam'' (Lit ''Missing end_time''))
   \<and> map_of doc_id_only ''id'' = Some (JStr ''abc'')
   \<and> map_of doc_id_only ''in_progress'' = None
   \<and> from_dict (JObj doc_id_only) =
        Inl (BadSegmentException (JStr ''abc'') ''MissingParam'' (Lit ''Missing segment ID''))"
  by code_simp

section \<open>SegmentCollection.put_segment\<close>

text \<open>
  Claim C2. After every sequence of calls of \<^verbatim>\<open>put_segment\<close> on a new collection, and one
  more call, the segments of every trace are non-decreasing by start date. When the call
  inserts its segment, the segments before it all start strictly earlier and the segments
  after it do not start earlier: the new segment stands to the left of those with an equal
  start date.
\<close>

theorem put_segment_keeps_sorted:
  assumes "s = puts F history" and "s' = snd (put_segment F s seg)"
  shows "(\<forall>k. sorted_by_start F (segments (trace_at s' k)))
       \<and> (\<forall>k. dict_key (trace_id seg) = Inr k
               \<and> segments (trace_at s' k) \<noteq> segments (trace_at s k) \<longrightarrow>
             (\<exists>pre post. segments (trace_at s k) = pre @ post
                \<and> segments (trace_at s' k) = pre @ seg # post
                \<and> (\<forall>a\<in>set pre. lt F a seg = Inr True)
                \<and> (\<forall>b\<in>set post. lt F b seg = Inr False)))"
proof (intro conjI allI impI)
  fix k
  have "store_sorted F s'"
    unfolding assms by (rule put_segment_sorted) (rule puts_sorted)
  then show "sorted_by_start F (segments (trace_at s' k))"
    by (simp add: store_sorted_def)
next
  fix k
  assume a: "dict_key (trace_id seg) = Inr k
    \<and> segments (trace_at s' k) \<noteq> segments (trace_at s k)"
  have srt: "sorted_by_start F (segments (trace_at s k))"
    using puts_sorted [of F history] assms(1) by (simp add: store_sorted_def)
  have p: "put_trace F (trace_at s k) seg = (fst (put_segment F s seg), trace_at s' k)"
    using put_segment_trace_at(1) a assms(2) by simp
  from p obtain segs where segs: "insort_left F (segments (trace_at s k)) seg = Inr segs"
      "segments (trace_at s' k) = segs"
    using a by (cases rule: put_trace_cases) auto
  from insort_left_sorted [OF srt segs(1)] segs(2)
  show "\<exists>pre post. segments (trace_at s k) = pre @ post
                \<and> segments (trace_at s' k) = pre @ seg # post
                \<and> (\<forall>a\<in>set pre. lt F a seg = Inr True)
                \<and> (\<forall>b\<in>set post. lt F b seg = Inr False)"
    by blast
qed

theorem put_segment_keeps_sorted_witness:
  "dict_key (trace_id (example_segment ''c'' 10 (JNum 15))) = Inr (KStr ''t'')
   \<and> map segment_id (segments (trace_at
         (puts fromtimestamp_utc [example_segment ''a'' 10 JNull, example_segment ''b'' 20 JNull])
         (KStr ''t''))) = [JStr ''a'', JStr ''b'']
   \<and> map segment_id (segments (trace_at
         (snd (put_segment fromtimestamp_utc
            (puts fromtimestamp_utc [example_segment ''a'' 10 JNull, example_segment ''b'' 20 JNull])
            (example_segment ''c'' 10 (JNum 15))))
         (KStr ''t''))) = [JStr ''c'', JStr ''a'', JStr ''b'']
   \<and> sorted_by_start fromtimestamp_utc (segments (trace_at
         (snd (put_segment fromtimestamp_utc
            (puts fromtimestamp_utc [example_segment ''a'' 10 JNull, example_segment ''b'' 20 JNull])
            (example_segment ''c'' 10 (JNum 15))))
         (KStr ''t'')))"
proof -
  define S where "S = puts fromtimestamp_utc [example_segment ''a'' 10 JNull, example_segment ''b'' 20 JNull]"
  define X where "X = example_segment ''c'' 10 (JNum 15)"
  define S' where "S' = snd (put_segment fromtimestamp_utc S X)"
  have k: "dict_key (trace_id X) = Inr (KStr ''t'')"
    unfolding X_def by code_simp
  have before: "map segment_id (segments (trace_at S (KStr ''t''))) = [JStr ''a'', JStr ''b'']"
    unfolding S_def by code_simp
  have after: "map segment_id (segments (trace_at S' (KStr ''t''))) = [JStr ''c'', JStr ''a'', JStr ''b'']"
    unfolding S'_def S_def X_def by code_simp
  from put_segment_keeps_sorted [of S fromtimestamp_utc
      "[example_segment ''a'' 10 JNull, example_segment ''b'' 20 JNull]" S' X]
  have "sorted_by_start fromtimestamp_utc (segments (trace_at S' (KStr ''t'')))"
    by (simp add: S_def S'_def)
  with k before after show ?thesis
    unfolding S'_def S_def X_def by simp
qed

text \<open>
  Claim C1, amended. For every call of \<^verbatim>\<open>put_segment\<close> that returns without an
  exception, on a collection built by earlier calls: if the last segment of the trace then
  has an end time, the trace is finished, all start dates of its segments exist, its
  \<^verbatim>\<open>start_date\<close> is the least of them, and its \<^verbatim>\<open>end_date\<close> is the end date of that last
  segment.
\<close>

theorem put_segment_closed_tail_window:
  assumes "s = puts F history" and "put_segment F s seg = (None, s')"
    and "dict_key (trace_id seg) = Inr k"
    and "end_time (last (segments (trace_at s' k))) \<noteq> JNull"
  shows "finished (trace_at s' k)
       \<and> (\<forall>x\<in>set (segments (trace_at s' k)). good F x)
       \<and> start_date (trace_at s' k) = Min (sd F ` set (segments (trace_at s' k)))
       \<and> seg_end_date F (last (segments (trace_at s' k))) = Inr (end_date (trace_at s' k))"
proof -
  have srt: "sorted_by_start F (segments (trace_at s k))"
    using puts_sorted [of F history] assms(1) by (simp add: store_sorted_def)
  have p: "put_trace F (trace_at s k) seg = (None, trace_at s' k)"
    using put_segment_trace_at(1) [OF assms(3), of F s] assms(2) by simp
  from p obtain segs st et where c: "insort_left F (segments (trace_at s k)) seg = Inr segs"
      "seg_start_date F (hd segs) = Inr st" "seg_end_date F (last segs) = Inr et"
      "trace_at s' k = (trace_at s k)\<lparr>segments := segs, finished := True,
         start_date := st, end_date := et\<rparr>"
    using assms(4) by (cases rule: put_trace_cases) auto
  have ne: "segs \<noteq> []" using c(1) by (rule insort_left_not_Nil)
  have srt': "sorted_by_start F segs"
    using insort_left_sorted [OF srt c(1)] by blast
  have gh: "good F (hd segs)" using c(2) by (simp add: good_def)
  have allgood: "\<forall>a\<in>set segs. good F a"
    using srt' ne gh by (rule sorted_by_start_good_hd)
  have "sorted (map (sd F) segs)" using srt' allgood by (rule sorted_by_start_sd)
  then have "Min (sd F ` set segs) = sd F (hd segs)" using ne by (rule sorted_hd_Min_map)
  also have "\<dots> = st" using c(2) by (simp add: sd_def)
  finally have m: "Min (sd F ` set segs) = st" .
  show ?thesis
    using c(3,4) allgood m by simp
qed

theorem put_segment_closed_tail_window_witness:
  "put_segment fromtimestamp_utc (puts fromtimestamp_utc [example_segment ''a'' 10 (JNum 100)])
       (example_segment ''b'' 20 (JNum 30))
     = (None, snd (put_segment fromtimestamp_utc
                     (puts fromtimestamp_utc [example_segment ''a'' 10 (JNum 100)])
                     (example_segment ''b'' 20 (JNum 30))))
   \<and> end_time (last (segments (trace_at
         (snd (put_segment fromtimestamp_utc
                 (puts fromtimestamp_utc [example_segment ''a'' 10 (JNum 100)])
                 (example_segment ''b'' 20 (JNum 30))))
         (KStr ''t'')))) \<noteq> JNull
   \<and> finished (trace_at
         (snd (put_segment fromtimestamp_utc
                 (puts fromtimestamp_utc [example_segment ''a'' 10 (JNum 100)])
                 (example_segment ''b'' 20 (JNum 30))))
         (KStr ''t''))
   \<and> start_date (trace_at
         (snd (put_segment fromtimestamp_utc
                 (puts fromtimestamp_utc [example_segment ''a'' 10 (JNum 100)])
                 (example_segment ''b'' 20 (JNum 30))))
         (KStr ''t'')) =
       Min (sd fromtimestamp_utc ` set (segments (trace_at
         (snd (put_segment fromtimestamp_utc
                 (puts fromtimestamp_utc [example_segment ''a'' 10 (JNum 100)])
                 (example_segment ''b'' 20 (JNum 30))))
         (KStr ''t''))))"
proof -
  define S where "S = puts fromtimestamp_utc [example_segment ''a'' 10 (JNum 100)]"
  define X where "X = example_segment ''b'' 20 (JNum 30)"
  define S' where "S' = snd (put_segment fromtimestamp_utc S X)"
  have k: "dict_key (trace_id X) = Inr (KStr ''t'')"
    unfolding X_def by code_simp
  have "fst (put_segment fromtimestamp_utc S X) = None"
    unfolding S_def X_def by code_simp
  then have ret: "put_segment fromtimestamp_utc S X = (None, S')"
    by (simp add: S'_def prod_eq_iff)
  have tail: "end_time (last (segments (trace_at S' (KStr ''t'')))) \<noteq> JNull"
    unfolding S'_def S_def X_def by code_simp
  from put_segment_closed_tail_window [OF S_def ret k tail] ret tail show ?thesis
    unfolding S'_def S_def X_def by simp
qed

text \<open>
  Claim C1 as stated, with the greatest end date, fails: after a segment from 10 to 100 and
  a segment from 20 to 30 the last segment is the second one, and \<^verbatim>\<open>end_date\<close> is 30
  seconds although the first segment ends at 100.
\<close>

theorem put_segment_window_end_counterexample:
  "fst (put_segment fromtimestamp_utc (puts fromtimestamp_utc [example_segment ''a'' 10 (JNum 100)])
       (example_segment ''b'' 20 (JNum 30))) = None
   \<and> end_time (last (segments (trace_at
         (snd (put_segment fromtimestamp_utc
                 (puts fromtimestamp_utc [example_segment ''a'' 10 (JNum 100)])
                 (example_segment ''b'' 20 (JNum 30))))
         (KStr ''t'')))) \<noteq> JNull
   \<and> end_date (trace_at
         (snd (put_segment fromtimestamp_utc
                 (puts fromtimestamp_utc [example_segment ''a'' 10 (JNum 100)])
                 (example_segment ''b'' 20 (JNum 30))))
         (KStr ''t'')) = 30000000
   \<and> Max (ed fromtimestamp_utc ` set (segments (trace_at
         (snd (put_segment fromtimestamp_utc
                 (puts fromtimestamp_utc [example_segment ''a'' 10 (JNum 100)])
                 (example_segment ''b'' 20 (JNum 30))))
         (KStr ''t'')))) = 100000000"
  by code_simp

text \<open>
  Claim C7. If after a call of \<^verbatim>\<open>put_segment\<close> the last segment of the segment's trace
  has no end time, then \<^verbatim>\<open>finished\<close>, \<^verbatim>\<open>start_date\<close> and \<^verbatim>\<open>end_date\<close> of the trace are
  what they were before the call (for a new trace: what a new item holds). No call resets
  \<^verbatim>\<open>finished\<close>.
\<close>

theorem put_segment_open_tail_frame:
  assumes "dict_key (trace_id seg) = Inr k" and "s' = snd (put_segment F s seg)"
  shows "(segments (trace_at s' k) \<noteq> [] \<and> end_time (last (segments (trace_at s' k))) = JNull \<longrightarrow>
            finished (trace_at s' k) = finished (trace_at s k)
          \<and> start_date (trace_at s' k) = start_date (trace_at s k)
          \<and> end_date (trace_at s' k) = end_date (trace_at s k))
       \<and> (finished (trace_at s k) \<longrightarrow> finished (trace_at s' k))"
proof -
  have p: "put_trace F (trace_at s k) seg = (fst (put_segment F s seg), trace_at s' k)"
    using put_segment_trace_at(1) assms by simp
  from p show ?thesis
    by (cases rule: put_trace_cases) auto
qed

theorem put_segment_open_tail_frame_witness:
  "dict_key (trace_id (example_segment ''b'' 30 JNull)) = Inr (KStr ''t'')
   \<and> finished (trace_at (puts fromtimestamp_utc [example_segment ''a'' 10 (JNum 20)]) (KStr ''t''))
   \<and> end_time (last (segments (trace_at
         (snd (put_segment fromtimestamp_utc
            (puts fromtimestamp_utc [example_segment ''a'' 10 (JNum 20)])
            (example_segment ''b'' 30 JNull)))
         (KStr ''t'')))) = JNull
   \<and> finished (trace_at
         (snd (put_segment fromtimestamp_utc
            (puts fromtimestamp_utc [example_segment ''a'' 10 (JNum 20)])
            (example_segment ''b'' 30 JNull)))
         (KStr ''t''))
   \<and> start_date (trace_at
         (snd (put_segment fromtimestamp_utc
            (puts fromtimestamp_utc [example_segment ''a'' 10 (JNum 20)])
            (example_segment ''b'' 30 JNull)))
         (KStr ''t'')) = 10000000
   \<and> end_date (trace_at
         (snd (put_segment fromtimestamp_utc
            (puts fromtimestamp_utc [example_segment ''a'' 10 (JNum 20)])
            (example_segment ''b'' 30 JNull)))
         (KStr ''t'')) = 20000000"
proof -
  define S where "S = puts fromtimestamp_utc [example_segment ''a'' 10 (JNum 20)]"
  define X where "X = example_segment ''b'' 30 JNull"
  define S' where "S' = snd (put_segment fromtimestamp_utc S X)"
  have k: "dict_key (trace_id X) = Inr (KStr ''t'')"
    unfolding X_def by code_simp
  have old: "finished (trace_at S (KStr ''t''))" "start_date (trace_at S (KStr ''t'')) = 10000000"
      "end_date (trace_at S (KStr ''t'')) = 20000000"
    unfolding S_def by code_simp+
  have tail: "segments (trace_at S' (KStr ''t'')) \<noteq> []"
      "end_time (last (segments (trace_at S' (KStr ''t'')))) = JNull"
    unfolding S'_def S_def X_def by code_simp+
  from put_segment_open_tail_frame [OF k, of S' fromtimestamp_utc S] tail old
  have "finished (trace_at S' (KStr ''t''))" "start_date (trace_at S' (KStr ''t'')) = 10000000"
      "end_date (trace_at S' (KStr ''t'')) = 20000000"
    by (simp_all add: S'_def)
  with k old(1) tail(2) show ?thesis
    unfolding S'_def S_def X_def by simp
qed

section \<open>SegmentCollection.summary\<close>

text \<open>
  Claim C3, amended. For every call of \<^verbatim>\<open>summary\<close> whose filter expression is
  \<^verbatim>\<open>None\<close>, the call returns, and the traces in \<^verbatim>\<open>TraceSummaries\<close> are, in the order of
  the collection, exactly those that are finished, whose \<^verbatim>\<open>start_date\<close> is strictly after
  the start of the query and whose \<^verbatim>\<open>end_date\<close> is strictly before its end.
\<close>

theorem summary_strict_window:
  "(case fst (summary now s st et JNull sampling) of
      Inl e \<Rightarrow> None
    | Inr r \<Rightarrow> Some (map Id_tid (TraceSummaries r)))
   = Some (map fst (filter (\<lambda>(tid, tr). finished tr \<and> st < start_date tr \<and> end_date tr < et) s))"
  by (simp add: summary_def summaries_loop_eq Let_def Id_tid_summary_part_of split_def)

theorem summary_strict_window_witness:
  "(case fst (summary 0 (puts fromtimestamp_utc [example_segment ''a'' 100 (JNum 200)])
                50000000 250000000 JNull False) of
      Inl e \<Rightarrow> None | Inr r \<Rightarrow> Some (map Id_tid (TraceSummaries r))) = Some [KStr ''t'']
   \<and> (case fst (summary 0 (puts fromtimestamp_utc [example_segment ''a'' 100 (JNum 200)])
                100000000 250000000 JNull False) of
      Inl e \<Rightarrow> None | Inr r \<Rightarrow> Some (map Id_tid (TraceSummaries r))) = Some []
   \<and> (case fst (summary 0 (puts fromtimestamp_utc [example_segment ''a'' 100 (JNum 200)])
                50000000 200000000 JNull False) of
      Inl e \<Rightarrow> None | Inr r \<Rightarrow> Some (map Id_tid (TraceSummaries r))) = Some []"
proof -
  have st: "puts fromtimestamp_utc [example_segment ''a'' 100 (JNum 200)] =
      [(KStr ''t'', \<lparr> start_date = 100000000, end_date = 200000000, finished = True,
                      segments = [example_segment ''a'' 100 (JNum 200)] \<rparr>)]"
    by code_simp
  show ?thesis
    using summary_strict_window [of 0 "puts fromtimestamp_utc [example_segment ''a'' 100 (JNum 200)]" 50000000 250000000 False]
      summary_strict_window [of 0 "puts fromtimestamp_utc [example_segment ''a'' 100 (JNum 200)]" 100000000 250000000 False]
      summary_strict_window [of 0 "puts fromtimestamp_utc [example_segment ''a'' 100 (JNum 200)]" 50000000 200000000 False]
    unfolding st by simp
qed

text \<open>
  Claim C3 as stated, for a null or empty filter expression, fails on the empty string: it
  is not \<^verbatim>\<open>None\<close>, and the call raises although a finished trace lies inside the window.
\<close>

theorem summary_empty_filter_counterexample:
  "finished (trace_at (puts fromtimestamp_utc [example_segment ''a'' 100 (JNum 200)]) (KStr ''t''))
   \<and> 50000000 < start_date (trace_at (puts fromtimestamp_utc [example_segment ''a'' 100 (JNum 200)]) (KStr ''t''))
   \<and> end_date (trace_at (puts fromtimestamp_utc [example_segment ''a'' 100 (JNum 200)]) (KStr ''t'')) < 250000000
   \<and> fst (summary 0 (puts fromtimestamp_utc [example_segment ''a'' 100 (JNum 200)])
            50000000 250000000 (JStr []) False)
       = Inl (AWSError ''Not implemented yet - moto'' ''InternalFailure'' 500)"
  by code_simp

text \<open>
  Claim C6. Every call of \<^verbatim>\<open>summary\<close> whose filter expression is not \<^verbatim>\<open>None\<close>, so every
  call with a non-empty one, raises the \<^verbatim>\<open>AWSError\<close> with code \<^verbatim>\<open>InternalFailure\<close> and
  status 500 and returns no summaries.
\<close>

theorem summary_filter_not_implemented:
  "filter_expression \<noteq> JNull \<Longrightarrow>
     summary now s st et filter_expression sampling =
       (Inl (AWSError ''Not implemented yet - moto'' ''InternalFailure'' 500), s)"
  by (simp add: summary_def)

theorem summary_filter_not_implemented_witness:
  "JStr ''service(x)'' \<noteq> JNull
   \<and> summary 0 [] 0 10 (JStr ''service(x)'') False =
       (Inl (AWSError ''Not implemented yet - moto'' ''InternalFailure'' 500), [])"
  using summary_filter_not_implemented [of "JStr ''service(x)''" 0 "[]" 0 10 False] by simp

text \<open>
  Claim C8, amended. The traces in the result are the included traces in their order, and
  for each of them whose \<^verbatim>\<open>start_date\<close> and \<^verbatim>\<open>end_date\<close> are less than \<open>2 ^ 34\<close> seconds
  apart the \<^verbatim>\<open>Duration\<close> is the number of whole seconds between the two, the fraction
  dropped towards zero: a window from 100 to 163.9 seconds gives 63, and a window from 100
  back to 99.5 gives 0.
\<close>

theorem summary_duration_truncated:
  "case fst (summary now s st et JNull sampling) of
     Inl e \<Rightarrow> False
   | Inr r \<Rightarrow>
       list_all2
         (\<lambda>p (tid, tr). Id_tid p = tid
            \<and> (\<bar>end_date tr - start_date tr\<bar> < 17179869184000000 \<longrightarrow>
                 Duration p =
                   (if 0 \<le> end_date tr - start_date tr
                    then (end_date tr - start_date tr) div 1000000
                    else - ((start_date tr - end_date tr) div 1000000))))
         (TraceSummaries r)
         (filter (\<lambda>(tid, tr). finished tr \<and> st < start_date tr \<and> end_date tr < et) s)"
proof -
  have "list_all2
         (\<lambda>p (tid, tr). Id_tid p = tid
            \<and> (\<bar>end_date tr - start_date tr\<bar> < 17179869184000000 \<longrightarrow>
                 Duration p =
                   (if 0 \<le> end_date tr - start_date tr
                    then (end_date tr - start_date tr) div 1000000
                    else - ((start_date tr - end_date tr) div 1000000))))
         (map (\<lambda>(tid, tr). summary_part_of tid tr) xs) xs" for xs
    by (induction xs) (auto simp: summary_part_of_def py_int_total_seconds)
  then show ?thesis
    by (simp add: summary_def summaries_loop_eq Let_def)
qed

theorem summary_duration_truncated_witness:
  "\<bar>end_date (trace_at (puts fromtimestamp_utc [example_segment ''a'' 100 (JNum (1639 / 10))])
                  (KStr ''t''))
     - start_date (trace_at (puts fromtimestamp_utc [example_segment ''a'' 100 (JNum (1639 / 10))])
                  (KStr ''t''))\<bar> < 17179869184000000
   \<and> (case fst (summary 0 (puts fromtimestamp_utc [example_segment ''a'' 100 (JNum (1639 / 10))])
                50000000 250000000 JNull False) of
        Inl e \<Rightarrow> None | Inr r \<Rightarrow> Some (map Duration (TraceSummaries r))) = Some [63]
   \<and> (case fst (summary 0 (puts fromtimestamp_utc [example_segment ''a'' 100 (JNum (199 / 2))])
                50000000 250000000 JNull False) of
        Inl e \<Rightarrow> None | Inr r \<Rightarrow> Some (map Duration (TraceSummaries r))) = Some [0]"
proof -
  have st: "puts fromtimestamp_utc [example_segment ''a'' 100 (JNum (1639 / 10))] =
      [(KStr ''t'', \<lparr> start_date = 100000000, end_date = 163900000, finished = True,
                      segments = [example_segment ''a'' 100 (JNum (1639 / 10))] \<rparr>)]"
    by code_simp
  have rev: "puts fromtimestamp_utc [example_segment ''a'' 100 (JNum (199 / 2))] =
      [(KStr ''t'', \<lparr> start_date = 100000000, end_date = 99500000, finished = True,
                      segments = [example_segment ''a'' 100 (JNum (199 / 2))] \<rparr>)]"
    by code_simp
  show ?thesis
    using summary_duration_truncated
        [where now = 0 and st = 50000000 and et = 250000000 and sampling = False
           and s = "puts fromtimestamp_utc [example_segment ''a'' 100 (JNum (1639 / 10))]"]
      summary_duration_truncated
        [where now = 0 and st = 50000000 and et = 250000000 and sampling = False
           and s = "puts fromtimestamp_utc [example_segment ''a'' 100 (JNum (199 / 2))]"]
    unfolding st rev
    by (simp add: summary_def Let_def summary_part_of_def trace_at_def)
qed

text \<open>
  Claim C8 as stated, for every window, fails on a long one: from 0.000001 to 20000000000
  seconds the difference is 19999999999.999999 seconds, the nearest double is
  20000000000, and that is the \<^verbatim>\<open>Duration\<close>, not 19999999999.
\<close>

theorem summary_duration_rounds_counterexample:
  "end_date (trace_at (puts fromtimestamp_utc
        [example_segment ''a'' (1 / 1000000) (JNum 20000000000)]) (KStr ''t''))
     - start_date (trace_at (puts fromtimestamp_utc
        [example_segment ''a'' (1 / 1000000) (JNum 20000000000)]) (KStr ''t''))
     = 19999999999999999
   \<and> (19999999999999999::int) div 1000000 = 19999999999
   \<and> (case fst (summary 0 (puts fromtimestamp_utc
                    [example_segment ''a'' (1 / 1000000) (JNum 20000000000)])
                0 30000000000000000 JNull False) of
        Inl e \<Rightarrow> None | Inr r \<Rightarrow> Some (map Duration (TraceSummaries r)))
       = Some [20000000000]"
  by code_simp

text \<open>
  Claim C10. A call of \<^verbatim>\<open>summary\<close> leaves the collection as it was, whether it returns a
  result or raises: the traces, and the segments, \<^verbatim>\<open>finished\<close>, \<^verbatim>\<open>start_date\<close> and
  \<^verbatim>\<open>end_date\<close> of each.
\<close>

theorem summary_leaves_store:
  "snd (summary now s st et filter_expression sampling) = s"
  by (simp add: summary_def Let_def)

section \<open>XRayResponse.trace_segments\<close>




end
